theory Spec2Isabelle
  imports Complex_Main "HOL-Library.Sublist"
begin

section \<open>Similarity engine: LCS length and normalised similarity\<close>

text \<open>
  The functions \<^verbatim>\<open>lcs_length\<close> and \<^verbatim>\<open>similarity_lcs\<close> of
  \<^verbatim>\<open>fourth iteration/trace_analysis.py\<close> (the same code, up to the spelling of
  \<^verbatim>\<open>max\<close>, is in \<^verbatim>\<open>second iteration/trace_analysis.py\<close> and
  \<^verbatim>\<open>execution trace/analyze_traces.py\<close>).

  Rows of the dynamic program are Python lists of integers; they are modelled as
  \<open>nat list\<close> (entries start at 0 and only grow by \<open>+ 1\<close> and \<open>max\<close>).
  \<^verbatim>\<open>cur[j] = v\<close> is \<open>cur[j := v]\<close> and \<^verbatim>\<open>prev[j]\<close> is \<open>prev ! j\<close>; that every such
  index is inside the list, so that Python raises no \<^verbatim>\<open>IndexError\<close>, is lemma
  \<open>lcs_row_inv\<close> below (rows keep length \<open>n + 1\<close>, and \<open>1 \<le> j \<le> n\<close>, \<open>1 \<le> i \<le> m\<close>).
  \<^verbatim>\<open>for j in range(1, n + 1)\<close> is a \<open>fold\<close> over \<open>[1..<n + 1]\<close>.
\<close>

definition lcs_cell :: "'a \<Rightarrow> 'a list \<Rightarrow> nat list \<Rightarrow> nat \<Rightarrow> nat list \<Rightarrow> nat list" where
  "lcs_cell a seq2 prev j cur =
     (if a = seq2 ! (j - 1)
      then cur[j := prev ! (j - 1) + 1]
      else cur[j := max (prev ! j) (cur ! (j - 1))])"

definition lcs_row :: "'a list \<Rightarrow> 'a list \<Rightarrow> nat \<Rightarrow> nat list \<Rightarrow> nat list" where
  "lcs_row seq1 seq2 i prev =
     (let n = length seq2;
          cur = replicate (n + 1) 0;
          a = seq1 ! (i - 1)
      in fold (lcs_cell a seq2 prev) [1..<n + 1] cur)"

definition lcs_length :: "'a list \<Rightarrow> 'a list \<Rightarrow> nat" where
  "lcs_length seq1 seq2 =
     (let m = length seq1; n = length seq2
      in if m = 0 \<or> n = 0 then 0
         else (let prev = replicate (n + 1) 0
               in fold (lcs_row seq1 seq2) [1..<m + 1] prev ! n))"

text \<open>
  \<^verbatim>\<open>similarity_lcs\<close> returns a Python float: \<^verbatim>\<open>1.0\<close>, \<^verbatim>\<open>0.0\<close>, or the true
  division \<^verbatim>\<open>lcs / max(len(seq1), len(seq2))\<close> of two integers. The model returns the
  exact quotient as a rational; Python returns the float nearest to it. Rounding to
  nearest is monotone and 0 and 1 are floats, so bounds by 0 and 1 and equalities
  between quotients of equal integers carry over to the floats.
\<close>

definition similarity_lcs :: "'a list \<Rightarrow> 'a list \<Rightarrow> rat" where
  "similarity_lcs seq1 seq2 =
     (if seq1 = [] \<and> seq2 = [] then 1
      else if seq1 = [] \<or> seq2 = [] then 0
      else (let lcs = lcs_length seq1 seq2
            in of_nat lcs / of_nat (max (length seq1) (length seq2))))"

text \<open>
  \<^verbatim>\<open>SimilarityCalculator._lcs\<close> of \<^verbatim>\<open>first iteration/trace_instrumenter.py\<close>: the
  full table \<^verbatim>\<open>dp = [[0] * (n + 1) for _ in range(m + 1)]\<close>, filled row by row, and
  \<^verbatim>\<open>dp[m][n]\<close> returned. \<^verbatim>\<open>dp[i][j] = v\<close> is \<open>dp[i := (dp ! i)[j := v]]\<close>.
  Here too every index is inside the table (lemmas \<open>lcs_table_cell_shape\<close> and
  \<open>lcs_table_rows_inv\<close>).
\<close>

definition lcs_table_cell :: "'a list \<Rightarrow> 'a list \<Rightarrow> nat \<Rightarrow> nat \<Rightarrow> nat list list \<Rightarrow> nat list list" where
  "lcs_table_cell seq1 seq2 i j dp =
     (if seq1 ! (i - 1) = seq2 ! (j - 1)
      then dp[i := (dp ! i)[j := dp ! (i - 1) ! (j - 1) + 1]]
      else dp[i := (dp ! i)[j := max (dp ! (i - 1) ! j) (dp ! i ! (j - 1))]])"

definition lcs_table_row :: "'a list \<Rightarrow> 'a list \<Rightarrow> nat \<Rightarrow> nat list list \<Rightarrow> nat list list" where
  "lcs_table_row seq1 seq2 i dp = fold (lcs_table_cell seq1 seq2 i) [1..<length seq2 + 1] dp"

definition SimilarityCalculator_lcs :: "'a list \<Rightarrow> 'a list \<Rightarrow> nat" where
  "SimilarityCalculator_lcs seq1 seq2 =
     (let m = length seq1; n = length seq2;
          dp = replicate (m + 1) (replicate (n + 1) 0)
      in fold (lcs_table_row seq1 seq2) [1..<m + 1] dp ! m ! n)"

text \<open>
  The recurrence both programs tabulate, on prefix lengths: \<open>lcs_rec A B i j\<close> is the
  entry of row \<open>i\<close> and column \<open>j\<close>. It is used only to state the loop invariants.
\<close>

fun lcs_rec :: "'a list \<Rightarrow> 'a list \<Rightarrow> nat \<Rightarrow> nat \<Rightarrow> nat" where
  "lcs_rec A B 0 j = 0"
| "lcs_rec A B (Suc i) 0 = 0"
| "lcs_rec A B (Suc i) (Suc j) =
     (if A ! i = B ! j then lcs_rec A B i j + 1
      else max (lcs_rec A B i (Suc j)) (lcs_rec A B (Suc i) j))"

text \<open>
  Loop invariants of the full table: its shape (\<open>m + 1\<close> rows of \<open>n + 1\<close> entries, column
  0 never written), and the entries already filled when row \<open>i\<close> has been written up to
  column \<open>j\<close>.
\<close>

definition table_shape :: "nat \<Rightarrow> nat \<Rightarrow> nat list list \<Rightarrow> bool" where
  "table_shape m n dp \<longleftrightarrow> length dp = Suc m \<and> (\<forall>r\<le>m. length (dp ! r) = Suc n \<and> dp ! r ! 0 = 0)"

definition table_filled :: "'a list \<Rightarrow> 'a list \<Rightarrow> nat \<Rightarrow> nat \<Rightarrow> nat list list \<Rightarrow> bool" where
  "table_filled A B i j dp \<longleftrightarrow>
     (\<forall>r<i. \<forall>k\<le>length B. dp ! r ! k = lcs_rec A B r k) \<and> (\<forall>k\<le>j. dp ! i ! k = lcs_rec A B i k)"


section \<open>Python values and strings\<close>

text \<open>
  A trace entry is whatever \<^verbatim>\<open>json.loads\<close> returns for an element of a trace array, so
  the values are the JSON-shaped Python values. A \<^verbatim>\<open>dict\<close> with string keys is an
  association list, read with \<open>map_of\<close>. A float is represented by its (rational)
  value; the code only ever tests a float for being zero and renders it with \<^verbatim>\<open>str\<close>.

  Strings are \<open>char list\<close>, a \<open>char\<close> standing for the code point of the same number:
  the model covers the strings whose code points are below 256, and the predicates and
  case mapping below are Python's on that range.
\<close>

datatype pyval =
    PNone
  | PBool bool
  | PInt int
  | PFloat rat
  | PStr string
  | PList "pyval list"
  | PDict "(string \<times> pyval) list"

text \<open>
  The exceptions of the model. \<^verbatim>\<open>AttributeError\<close> is raised by a method call
  \<^verbatim>\<open>entry.get(...)\<close> on a value that is not a \<^verbatim>\<open>dict\<close>. The other three are raised by
  \<^verbatim>\<open>json.loads\<close>: \<^verbatim>\<open>JSONDecodeError\<close> on a text that is not JSON, \<^verbatim>\<open>RecursionError\<close> on a text
  nested too deeply, and \<^verbatim>\<open>ValueError\<close> on an integer of more than 4300 digits. In Python
  \<^verbatim>\<open>JSONDecodeError\<close> is a subclass of \<^verbatim>\<open>ValueError\<close>; here \<open>ValueError\<close> stands for a
  \<^verbatim>\<open>ValueError\<close> that is not a \<^verbatim>\<open>JSONDecodeError\<close>, which \<^verbatim>\<open>except json.JSONDecodeError\<close> does
  not catch.
\<close>

datatype py_error = AttributeError | JSONDecodeError | RecursionError | ValueError

text \<open>Truth value testing, as used by \<^verbatim>\<open>x or y\<close>.\<close>

fun py_truthy :: "pyval \<Rightarrow> bool" where
  "py_truthy PNone = False"
| "py_truthy (PBool b) = b"
| "py_truthy (PInt i) = (i \<noteq> 0)"
| "py_truthy (PFloat q) = (q \<noteq> 0)"
| "py_truthy (PStr s) = (s \<noteq> [])"
| "py_truthy (PList xs) = (xs \<noteq> [])"
| "py_truthy (PDict kvs) = (kvs \<noteq> [])"

definition py_or :: "pyval \<Rightarrow> pyval \<Rightarrow> pyval" where
  "py_or a b = (if py_truthy a then a else b)"

text \<open>\<^verbatim>\<open>d.get(k)\<close> on a dict: the value, or \<^verbatim>\<open>None\<close> when the key is missing.\<close>

definition dict_get :: "(string \<times> pyval) list \<Rightarrow> string \<Rightarrow> pyval" where
  "dict_get kvs k = (case map_of kvs k of None \<Rightarrow> PNone | Some v \<Rightarrow> v)"

definition is_dict :: "pyval \<Rightarrow> bool" where
  "is_dict v = (case v of PDict kvs \<Rightarrow> True | _ \<Rightarrow> False)"

text \<open>\<^verbatim>\<open>isinstance(v, int)\<close>: \<^verbatim>\<open>bool\<close> is a subclass of \<^verbatim>\<open>int\<close>.\<close>

definition is_int :: "pyval \<Rightarrow> bool" where
  "is_int v = (case v of PInt i \<Rightarrow> True | PBool b \<Rightarrow> True | _ \<Rightarrow> False)"

text \<open>
  \<^verbatim>\<open>str(v)\<close>. Strings, \<^verbatim>\<open>None\<close>, booleans and integers are rendered here; the rendering
  of floats, lists and dicts is Python's own and is the parameter \<open>str_other\<close>.
\<close>

fun str_nat :: "nat \<Rightarrow> string" where
  "str_nat n =
     (if n < 10 then [char_of (48 + n)]
      else str_nat (n div 10) @ [char_of (48 + n mod 10)])"

definition str_int :: "int \<Rightarrow> string" where
  "str_int i = (if i < 0 then CHR ''-'' # str_nat (nat (- i)) else str_nat (nat i))"

fun py_str :: "(pyval \<Rightarrow> string) \<Rightarrow> pyval \<Rightarrow> string" where
  "py_str str_other (PStr s) = s"
| "py_str str_other PNone = ''None''"
| "py_str str_other (PBool b) = (if b then ''True'' else ''False'')"
| "py_str str_other (PInt i) = str_int i"
| "py_str str_other v = str_other v"

text \<open>
  \<^verbatim>\<open>s.strip()\<close> removes leading and trailing white space; below 256 the white space
  characters are 9 to 13, 28 to 32, 133 and 160.
\<close>

definition py_isspace :: "char \<Rightarrow> bool" where
  "py_isspace c = ((of_char c :: nat) \<in> set [9, 10, 11, 12, 13, 28, 29, 30, 31, 32, 133, 160])"

definition py_strip :: "string \<Rightarrow> string" where
  "py_strip s = rev (dropWhile py_isspace (rev (dropWhile py_isspace s)))"

text \<open>
  \<^verbatim>\<open>s.lower()\<close>: below 256 the upper-case letters are \<^verbatim>\<open>A\<close> to \<^verbatim>\<open>Z\<close> (65 to 90) and 192
  to 222 without the multiplication sign 215; each is 32 below its lower-case letter.
\<close>

definition lower_char :: "char \<Rightarrow> char" where
  "lower_char c =
     (let n = (of_char c :: nat)
      in if (65 \<le> n \<and> n \<le> 90) \<or> (192 \<le> n \<and> n \<le> 222 \<and> n \<noteq> 215)
         then char_of (n + 32) else c)"

definition py_lower :: "string \<Rightarrow> string" where
  "py_lower s = map lower_char s"

text \<open>\<^verbatim>\<open>needle in hay\<close> on strings; \<^verbatim>\<open>hay.startswith(p)\<close> is \<open>prefix p hay\<close>.\<close>

fun py_contains :: "string \<Rightarrow> string \<Rightarrow> bool" where
  "py_contains needle [] = (needle = [])"
| "py_contains needle (c # cs) = (prefix needle (c # cs) \<or> py_contains needle cs)"

text \<open>
  \<^verbatim>\<open>text.splitlines()\<close>: below 256 the line boundaries are 10 to 13, 28 to 30 and 133, and
  a carriage return followed by a line feed is one boundary. The first argument is the
  line read so far.
\<close>

definition is_linebreak :: "char \<Rightarrow> bool" where
  "is_linebreak c = ((of_char c :: nat) \<in> set [10, 11, 12, 13, 28, 29, 30, 133])"

fun splitlines_from :: "string \<Rightarrow> string \<Rightarrow> string list" where
  "splitlines_from cur [] = (if cur = [] then [] else [cur])"
| "splitlines_from cur [c] = (if is_linebreak c then [cur] else [cur @ [c]])"
| "splitlines_from cur (c # d # cs) =
     (if c = char_of (13 :: nat) \<and> d = char_of (10 :: nat) then cur # splitlines_from [] cs
      else if is_linebreak c then cur # splitlines_from [] (d # cs)
      else splitlines_from (cur @ [c]) (d # cs))"

definition splitlines :: "string \<Rightarrow> string list" where
  "splitlines s = splitlines_from [] s"

subsection \<open>Regular expressions\<close>

text \<open>
  The fragment of \<^verbatim>\<open>re\<close> that the code uses: literals, character classes given by
  ranges, alternation, sequence, \<^verbatim>\<open>*\<close> and \<^verbatim>\<open>+\<close>. \<^verbatim>\<open>pattern.match(s)\<close> succeeds when
  the pattern matches some prefix of \<open>s\<close>; \<open>re_match\<close> decides this by taking the
  derivative of the pattern by each character in turn.
\<close>

definition in_class :: "(char \<times> char) list \<Rightarrow> char \<Rightarrow> bool" where
  "in_class ranges c =
     list_ex (\<lambda>(lo, hi). (of_char lo :: nat) \<le> of_char c \<and> (of_char c :: nat) \<le> of_char hi) ranges"

datatype regex =
    RFail
  | REmpty
  | RClass "(char \<times> char) list"
  | RAlt regex regex
  | RSeq regex regex
  | RStar regex

fun RLit :: "string \<Rightarrow> regex" where
  "RLit [] = REmpty"
| "RLit (c # cs) = RSeq (RClass [(c, c)]) (RLit cs)"

definition RPlus :: "regex \<Rightarrow> regex" where
  "RPlus r = RSeq r (RStar r)"

fun nullable :: "regex \<Rightarrow> bool" where
  "nullable RFail = False"
| "nullable REmpty = True"
| "nullable (RClass ranges) = False"
| "nullable (RAlt r s) = (nullable r \<or> nullable s)"
| "nullable (RSeq r s) = (nullable r \<and> nullable s)"
| "nullable (RStar r) = True"

fun deriv :: "char \<Rightarrow> regex \<Rightarrow> regex" where
  "deriv c RFail = RFail"
| "deriv c REmpty = RFail"
| "deriv c (RClass ranges) = (if in_class ranges c then REmpty else RFail)"
| "deriv c (RAlt r s) = RAlt (deriv c r) (deriv c s)"
| "deriv c (RSeq r s) =
     (if nullable r then RAlt (RSeq (deriv c r) s) (deriv c s) else RSeq (deriv c r) s)"
| "deriv c (RStar r) = RSeq (deriv c r) (RStar r)"

fun re_match :: "regex \<Rightarrow> string \<Rightarrow> bool" where
  "re_match r [] = nullable r"
| "re_match r (c # cs) = (nullable r \<or> re_match (deriv c r) cs)"

text \<open>
  \<^verbatim>\<open>re.sub(r'[^...]', repl, s)\<close> for a negated character class and a one-character
  replacement: every character outside the class becomes \<open>repl\<close>.
\<close>

definition re_sub_outside :: "(char \<times> char) list \<Rightarrow> char \<Rightarrow> string \<Rightarrow> string" where
  "re_sub_outside ranges repl s = map (\<lambda>c. if in_class ranges c then c else repl) s"

section \<open>Canonicalizer\<close>

text \<open>
  \<^verbatim>\<open>OBFUSCATOR_NAME_PATTERN = re.compile(r'^(?:a0_0x|_0x|_0x[a-f0-9]+|0x)[0-9a-fA-F_]*')\<close>
\<close>

definition OBFUSCATOR_NAME_PATTERN :: regex where
  "OBFUSCATOR_NAME_PATTERN =
     RSeq (RAlt (RLit ''a0_0x'')
          (RAlt (RLit ''_0x'')
          (RAlt (RSeq (RLit ''_0x'') (RPlus (RClass [(CHR ''a'', CHR ''f''), (CHR ''0'', CHR ''9'')])))
                (RLit ''0x''))))
          (RStar (RClass [(CHR ''0'', CHR ''9''), (CHR ''a'', CHR ''f''), (CHR ''A'', CHR ''F''),
                          (CHR ''_'', CHR ''_'')]))"

text \<open>
  \<^verbatim>\<open>canonicalize_entry\<close> of \<^verbatim>\<open>fourth iteration/trace_analysis.py\<close> (the second iteration and
  \<^verbatim>\<open>analyze_traces.py\<close> have the same chain of tests), in three parts.
  \<open>entry_func\<close> is the first three lines, which read the name from the dict:
  \<^verbatim>\<open>func = entry.get('function') or entry.get('event') or ''\<close> and the coercion by
  \<^verbatim>\<open>str\<close> of a value that is not a string.
\<close>

definition entry_func :: "(pyval \<Rightarrow> string) \<Rightarrow> (string \<times> pyval) list \<Rightarrow> string" where
  "entry_func str_other kvs =
     (let func = py_or (py_or (dict_get kvs ''function'') (dict_get kvs ''event'')) (PStr []);
          func = (case func of PStr s \<Rightarrow> s | _ \<Rightarrow> py_str str_other func)
      in func)"

text \<open>The character class \<^verbatim>\<open>[0-9a-zA-Z_]\<close> of the fallback's \<^verbatim>\<open>re.sub\<close>.\<close>

definition name_chars :: "(char \<times> char) list" where
  "name_chars =
     [(CHR ''0'', CHR ''9''), (CHR ''a'', CHR ''z''), (CHR ''A'', CHR ''Z''), (CHR ''_'', CHR ''_'')]"

text \<open>
  \<open>canonicalize_func\<close> is the rest of the body, from \<^verbatim>\<open>func_norm = func.strip()\<close> to the
  \<^verbatim>\<open>return\<close>: the tests in the order of the source, the first that holds decides.
\<close>

definition canonicalize_func :: "string \<Rightarrow> string" where
  "canonicalize_func func =
     (let func_norm = py_strip func
      in if re_match OBFUSCATOR_NAME_PATTERN func_norm then ''OBFUSCATOR_WRAPPER''
         else
           (let lower = py_lower func_norm
            in if py_contains ''process.on'' lower
                  \<or> lower \<in> set [''data_handler'', ''data'', ''handler'', ''ondata'', ''on_data'']
               then ''HANDLER''
               else if lower \<in> set [''global'', ''<module>'', ''root''] then ''GLOBAL''
               else if py_contains ''parseint'' lower \<or> py_contains ''parse_int'' lower
               then ''PARSE_INT''
               else if py_contains ''to_string'' lower \<or> py_contains ''tostring'' lower
               then ''TO_STRING''
               else if py_contains ''console'' lower \<or> py_contains ''log'' lower
               then ''CONSOLE_LOG''
               else if prefix ''anonymous'' lower \<or> prefix ''<anonymous>'' lower then ''ANON_FN''
               else
                 (let cleaned = re_sub_outside name_chars (CHR ''_'') func_norm;
                      cleaned = (if cleaned = [] then ''FN_UNKNOWN'' else cleaned)
                  in ''FN:'' @ cleaned)))"

text \<open>
  The whole function. The parameter is annotated \<^verbatim>\<open>Dict\<close>, which Python does not check:
  on any other value the first \<^verbatim>\<open>entry.get\<close> raises \<^verbatim>\<open>AttributeError\<close>.
\<close>

definition canonicalize_entry :: "(pyval \<Rightarrow> string) \<Rightarrow> pyval \<Rightarrow> py_error + string" where
  "canonicalize_entry str_other entry =
     (case entry of
        PDict kvs \<Rightarrow> Inr (canonicalize_func (entry_func str_other kvs))
      | _ \<Rightarrow> Inl AttributeError)"

text \<open>
  \<^verbatim>\<open>canonicalize_trace\<close>: the loop over the raw trace, \<open>tokens\<close> being the list built so
  far. An exception of \<^verbatim>\<open>canonicalize_entry\<close> leaves the loop. With \<^verbatim>\<open>include_line\<close> the
  token of an entry whose \<^verbatim>\<open>line\<close> is an \<^verbatim>\<open>int\<close> gets the suffix \<^verbatim>\<open>@L<line>\<close>, except the
  wrapper token, which is then skipped.
\<close>

definition token_with_line :: "(pyval \<Rightarrow> string) \<Rightarrow> pyval \<Rightarrow> string \<Rightarrow> py_error + string" where
  "token_with_line str_other e token =
     (case e of
        PDict kvs \<Rightarrow>
          (let line = dict_get kvs ''line''
           in if is_int line \<and> token \<notin> set [''OBFUSCATOR_WRAPPER'']
              then Inr (token @ ''@L'' @ py_str str_other line)
              else Inr token)
      | _ \<Rightarrow> Inl AttributeError)"

fun canonicalize_trace_from ::
  "(pyval \<Rightarrow> string) \<Rightarrow> bool \<Rightarrow> string list \<Rightarrow> pyval list \<Rightarrow> py_error + string list" where
  "canonicalize_trace_from str_other include_line tokens [] = Inr tokens"
| "canonicalize_trace_from str_other include_line tokens (e # es) =
     (case canonicalize_entry str_other e of
        Inl err \<Rightarrow> Inl err
      | Inr token \<Rightarrow>
          (case (if include_line then token_with_line str_other e token else Inr token) of
             Inl err \<Rightarrow> Inl err
           | Inr token \<Rightarrow>
               if token = ''OBFUSCATOR_WRAPPER''
               then canonicalize_trace_from str_other include_line tokens es
               else canonicalize_trace_from str_other include_line (tokens @ [token]) es))"

definition canonicalize_trace :: "(pyval \<Rightarrow> string) \<Rightarrow> pyval list \<Rightarrow> bool \<Rightarrow> py_error + string list" where
  "canonicalize_trace str_other raw_trace include_line =
     canonicalize_trace_from str_other include_line [] raw_trace"

section \<open>Trace parser\<close>

text \<open>
  \<^verbatim>\<open>parse_json_lines_from_stderr\<close> and \<^verbatim>\<open>merge_traces\<close> of the second and fourth
  iteration. The decoder \<^verbatim>\<open>json.loads\<close> is Python's own and is the parameter \<open>loads\<close>: it
  returns the decoded value or raises. The \<^verbatim>\<open>try\<close> of the loop catches
  \<^verbatim>\<open>json.JSONDecodeError\<close> and nothing else, so that any other exception of the decoder
  leaves the loop and the function. \<open>traces\<close> is the list of arrays kept so far.
\<close>

fun parse_lines ::
  "(string \<Rightarrow> py_error + pyval) \<Rightarrow> pyval list list \<Rightarrow> string list \<Rightarrow> py_error + pyval list list" where
  "parse_lines loads traces [] = Inr traces"
| "parse_lines loads traces (line # rest) =
     (let line = py_strip line
      in if line = [] then parse_lines loads traces rest
         else
           (case loads line of
              Inl err \<Rightarrow>
                if err = JSONDecodeError then parse_lines loads traces rest else Inl err
            | Inr parsed \<Rightarrow>
                (case parsed of
                   PList xs \<Rightarrow>
                     if list_all is_dict xs then parse_lines loads (traces @ [xs]) rest
                     else parse_lines loads traces rest
                 | _ \<Rightarrow> parse_lines loads traces rest)))"

definition parse_json_lines_from_stderr ::
  "(string \<Rightarrow> py_error + pyval) \<Rightarrow> string \<Rightarrow> py_error + pyval list list" where
  "parse_json_lines_from_stderr loads stderr_text = parse_lines loads [] (splitlines stderr_text)"

definition merge_traces :: "pyval list list \<Rightarrow> pyval list" where
  "merge_traces trace_lists = fold (\<lambda>t merged. merged @ t) trace_lists []"

text \<open>
  The end of \<^verbatim>\<open>execute_instrumented_code_and_collect_traces\<close>, once the run has ended with
  the text \<open>stderr\<close>: the two calls are inside a \<^verbatim>\<open>try\<close> whose \<^verbatim>\<open>except Exception\<close>
  returns the empty list.
\<close>

definition collect_traces :: "(string \<Rightarrow> py_error + pyval) \<Rightarrow> string \<Rightarrow> pyval list" where
  "collect_traces loads stderr =
     (case parse_json_lines_from_stderr loads stderr of
        Inl err \<Rightarrow> []
      | Inr parsed_lists \<Rightarrow> merge_traces parsed_lists)"

text \<open>
  The parser as the specification words it: a line is a trace line when it is not blank
  and decodes to an array whose every element is a key-value record; the trace is the
  concatenation of the arrays of the trace lines, in the order of the lines; every other
  line is skipped.
\<close>

definition spec_trace_line :: "(string \<Rightarrow> py_error + pyval) \<Rightarrow> string \<Rightarrow> pyval list option" where
  "spec_trace_line loads line =
     (if py_strip line = [] then None
      else (case loads (py_strip line) of
              Inr (PList xs) \<Rightarrow> if list_all is_dict xs then Some xs else None
            | _ \<Rightarrow> None))"

definition spec_parse_trace :: "(string \<Rightarrow> py_error + pyval) \<Rightarrow> string \<Rightarrow> pyval list" where
  "spec_parse_trace loads text = concat (List.map_filter (spec_trace_line loads) (splitlines text))"

section \<open>Comparison orchestrator\<close>

text \<open>
  \<^verbatim>\<open>SimilarityCalculator.compute_pair\<close>. \<^verbatim>\<open>round(sim, 4)\<close> is Python's rounding of a
  float and is the parameter \<open>round4\<close>.
\<close>

record pair_result =
  pr_similarity :: rat
  pr_len_a :: nat
  pr_len_b :: nat
  pr_lcs_length :: nat

definition compute_pair ::
  "(pyval \<Rightarrow> string) \<Rightarrow> (rat \<Rightarrow> rat) \<Rightarrow> bool \<Rightarrow> pyval list \<Rightarrow> pyval list \<Rightarrow> py_error + pair_result" where
  "compute_pair str_other round4 include_line_in_token traceA traceB =
     (case canonicalize_trace str_other traceA include_line_in_token of
        Inl err \<Rightarrow> Inl err
      | Inr tokensA \<Rightarrow>
          (case canonicalize_trace str_other traceB include_line_in_token of
             Inl err \<Rightarrow> Inl err
           | Inr tokensB \<Rightarrow>
               (let sim = similarity_lcs tokensA tokensB;
                    lcs_len = lcs_length tokensA tokensB
                in Inr \<lparr>pr_similarity = round4 sim, pr_len_a = length tokensA,
                        pr_len_b = length tokensB, pr_lcs_length = lcs_len\<rparr>)))"

text \<open>
  \<^verbatim>\<open>CodeAnalyzer.process_file\<close> of the fourth iteration (the second iteration has the
  same loops). What happens outside the program when one variant is instrumented and
  run is the input: no file was found for the variant; the instrumenter failed; the run
  timed out; the run failed otherwise; the run ended and left the text \<open>stderr\<close>, and
  the trace was saved; or the run ended and saving the trace failed.
\<close>

datatype variant_run =
    NoFile
  | InstrumentFailed
  | TimedOut
  | ExecutionFailed
  | Ran string
  | RanSaveFailed string

record program_case =
  pc_stem :: string
  pc_original :: variant_run
  pc_obfuscated :: variant_run
  pc_deobfuscated :: variant_run

text \<open>
  The body of the loop over \<^verbatim>\<open>files.items()\<close>: the value of \<^verbatim>\<open>traces_raw[version]\<close>
  after it. Every path but the successful one leaves the empty list.
\<close>

definition variant_trace :: "(string \<Rightarrow> py_error + pyval) \<Rightarrow> variant_run \<Rightarrow> pyval list" where
  "variant_trace loads run =
     (case run of
        NoFile \<Rightarrow> []
      | InstrumentFailed \<Rightarrow> []
      | TimedOut \<Rightarrow> []
      | ExecutionFailed \<Rightarrow> []
      | Ran stderr \<Rightarrow> collect_traces loads stderr
      | RanSaveFailed stderr \<Rightarrow> [])"

datatype report_value =
    RFile string
  | RTraces "string \<rightharpoonup> nat"
  | RScore rat

text \<open>
  The loop over the three pairs: \<^verbatim>\<open>traces_raw.get(a, [])\<close>, \<^verbatim>\<open>compute_pair\<close>, and
  \<^verbatim>\<open>results[key] = comp["similarity"]\<close>. An exception of \<^verbatim>\<open>compute_pair\<close> is not caught
  here and leaves \<^verbatim>\<open>process_file\<close>.
\<close>

definition traces_get :: "(string \<rightharpoonup> pyval list) \<Rightarrow> string \<Rightarrow> pyval list" where
  "traces_get traces_raw k = (case traces_raw k of None \<Rightarrow> [] | Some t \<Rightarrow> t)"

fun score_pairs ::
  "(pyval \<Rightarrow> string) \<Rightarrow> (rat \<Rightarrow> rat) \<Rightarrow> bool \<Rightarrow> (string \<rightharpoonup> pyval list) \<Rightarrow>
   (string \<rightharpoonup> report_value) \<Rightarrow> (string \<times> string \<times> string) list \<Rightarrow>
   py_error + (string \<rightharpoonup> report_value)" where
  "score_pairs str_other round4 include_line traces_raw results [] = Inr results"
| "score_pairs str_other round4 include_line traces_raw results ((a, b, key) # pairs) =
     (let ta = traces_get traces_raw a;
          tb = traces_get traces_raw b
      in case compute_pair str_other round4 include_line ta tb of
           Inl err \<Rightarrow> Inl err
         | Inr comp_ab \<Rightarrow>
             score_pairs str_other round4 include_line traces_raw
               (results(key \<mapsto> RScore (pr_similarity comp_ab))) pairs)"

text \<open>
  \<^verbatim>\<open>files\<close>, the dict of \<^verbatim>\<open>find_file_variations\<close> with what happened to each variant in
  place of its path, and the list \<^verbatim>\<open>pairs\<close> of \<^verbatim>\<open>process_file\<close>.
\<close>

definition files_of :: "program_case \<Rightarrow> (string \<times> variant_run) list" where
  "files_of pc =
     [(''original'', pc_original pc), (''obfuscated'', pc_obfuscated pc),
      (''deobfuscated'', pc_deobfuscated pc)]"

definition report_pairs :: "(string \<times> string \<times> string) list" where
  "report_pairs =
     [(''original'', ''obfuscated'', ''original_vs_obfuscated''),
      (''obfuscated'', ''deobfuscated'', ''obfuscated_vs_deobfuscated''),
      (''deobfuscated'', ''original'', ''deobfuscated_vs_original'')]"

definition process_file ::
  "(string \<Rightarrow> py_error + pyval) \<Rightarrow> (pyval \<Rightarrow> string) \<Rightarrow> (rat \<Rightarrow> rat) \<Rightarrow> bool \<Rightarrow> program_case \<Rightarrow>
   py_error + (string \<rightharpoonup> report_value)" where
  "process_file loads str_other round4 include_line pc =
     (let files = files_of pc;
          traces_raw = fold (\<lambda>(version, run) traces_raw. traces_raw(version \<mapsto> variant_trace loads run))
                         files Map.empty;
          results = [''file'' \<mapsto> RFile (pc_stem pc),
                     ''traces'' \<mapsto> RTraces (\<lambda>k. map_option length (traces_raw k))];
          pairs = report_pairs
      in score_pairs str_other round4 include_line traces_raw results pairs)"

text \<open>
  A variant is absent when its run left no trace to the program: no file, a failure
  of the instrumenter or of the run, a timeout, or a trace that could not be saved.
\<close>

definition absent :: "variant_run \<Rightarrow> bool" where
  "absent run = (case run of Ran stderr \<Rightarrow> False | _ \<Rightarrow> True)"

section \<open>Reading a report, and values for the examples\<close>

text \<open>
  \<^verbatim>\<open>results[key]\<close> of the report that \<^verbatim>\<open>process_file\<close> returns: the score under the key,
  \<open>None\<close> when \<^verbatim>\<open>process_file\<close> raised, the key is missing, or it holds no score.
\<close>

definition report_score :: "py_error + (string \<rightharpoonup> report_value) \<Rightarrow> string \<Rightarrow> rat option" where
  "report_score res key =
     (case res of
        Inl err \<Rightarrow> None
      | Inr results \<Rightarrow> (case results key of Some (RScore q) \<Rightarrow> Some q | _ \<Rightarrow> None))"

text \<open>
  The dict \<^verbatim>\<open>traces_raw\<close> of \<^verbatim>\<open>process_file\<close> after its first loop, named for the proofs.
\<close>

definition traces_of :: "(string \<Rightarrow> py_error + pyval) \<Rightarrow> program_case \<Rightarrow> (string \<rightharpoonup> pyval list)" where
  "traces_of loads pc =
     fold (\<lambda>(version, run) traces_raw. traces_raw(version \<mapsto> variant_trace loads run))
       (files_of pc) Map.empty"

text \<open>
  The score of a pair as the specification words it: 1 when both token sequences are
  empty, 0 when exactly one of them is, and otherwise the LCS length over the length of
  the longer sequence, rounded to four decimals.
\<close>

definition spec_pair_score :: "(rat \<Rightarrow> rat) \<Rightarrow> string list \<Rightarrow> string list \<Rightarrow> rat" where
  "spec_pair_score round4 ta tb =
     (if ta = [] \<and> tb = [] then 1
      else if ta = [] \<or> tb = [] then 0
      else round4 (of_nat (lcs_length ta tb) / of_nat (max (length ta) (length tb))))"

text \<open>
  Values of the three parameters for the examples. \<open>str_unused\<close> is for entries that
  hold no float, list or dict, so that \<open>str_other\<close> is never applied. \<open>example_loads\<close>
  is \<^verbatim>\<open>json.loads\<close> on the four lines of the examples: two trace arrays are decoded,
  the array \<^verbatim>\<open>'[' + '1' * 4301 + ']'\<close> of one integer of 4301 digits raises \<^verbatim>\<open>ValueError\<close>
  (the integer is over Python's limit of 4300 digits for the conversion of a string to
  an \<^verbatim>\<open>int\<close>), and the line \<^verbatim>\<open>'[' * 100000\<close> raises \<^verbatim>\<open>RecursionError\<close>. The last branch is
  for a line that is not JSON; the examples hold none.
  \<open>example_round4\<close> rounds to four decimals; on 0 and 1, the only scores of the examples,
  it is Python's \<^verbatim>\<open>round(x, 4)\<close>.
\<close>

definition str_unused :: "pyval \<Rightarrow> string" where
  "str_unused v = []"

definition big_integer_line :: string where
  "big_integer_line = ''['' @ replicate 4301 (CHR ''1'') @ '']''"

definition deep_line :: string where
  "deep_line = replicate 100000 (CHR ''['')"

definition example_loads :: "string \<Rightarrow> py_error + pyval" where
  \<open>example_loads s =
     (if s = ''[{"function": "main", "line": 1}]''
      then Inr (PList [PDict [(''function'', PStr ''main''), (''line'', PInt 1)]])
      else if s = ''[{"function": "_0xabc123"}]''
      then Inr (PList [PDict [(''function'', PStr ''_0xabc123'')]])
      else if s = big_integer_line then Inl ValueError
      else if s = deep_line then Inl RecursionError
      else Inl JSONDecodeError)\<close>

definition example_round4 :: "rat \<Rightarrow> rat" where
  "example_round4 q = of_int \<lfloor>q * 10000 + 1 / 2\<rfloor> / 10000"

section \<open>Properties of the similarity engine\<close>

lemma lcs_rec_0_right [simp]: "lcs_rec A B i 0 = 0"
  by (cases i) simp_all

lemma lcs_rec_le_left: "lcs_rec A B i j \<le> i"
  by (induction A B i j rule: lcs_rec.induct) (auto simp: le_SucI)

lemma lcs_rec_le_right: "lcs_rec A B i j \<le> j"
  by (induction A B i j rule: lcs_rec.induct) (auto simp: le_SucI)

lemma lcs_rec_sym: "lcs_rec A B i j = lcs_rec B A j i"
  by (induction A B i j rule: lcs_rec.induct) (auto simp: max.commute)

subsection \<open>The two-row program computes the recurrence\<close>

lemma fold_upt_Suc: "a \<le> b \<Longrightarrow> fold f [a..<Suc b] s = f b (fold f [a..<b] s)"
  by simp

lemma lcs_cell_step:
  assumes "length prev = Suc n" "length cur = Suc n" "Suc j \<le> n"
    and "\<forall>k\<le>n. prev ! k = lcs_rec A B i k"
    and "\<forall>k\<le>j. cur ! k = lcs_rec A B (Suc i) k"
  shows "length (lcs_cell (A ! i) B prev (Suc j) cur) = Suc n \<and>
         (\<forall>k\<le>Suc j. lcs_cell (A ! i) B prev (Suc j) cur ! k = lcs_rec A B (Suc i) k)"
  using assms by (auto simp: lcs_cell_def le_Suc_eq nth_list_update)

lemma lcs_cells_inv:
  assumes prev: "length prev = Suc n" "\<forall>k\<le>n. prev ! k = lcs_rec A B i k"
    and j: "j \<le> n"
  shows "length (fold (lcs_cell (A ! i) B prev) [1..<Suc j] (replicate (Suc n) 0)) = Suc n \<and>
         (\<forall>k\<le>j. fold (lcs_cell (A ! i) B prev) [1..<Suc j] (replicate (Suc n) 0) ! k = lcs_rec A B (Suc i) k)"
  using j
proof (induction j)
  case 0
  then show ?case by simp
next
  case (Suc j)
  define cur where "cur = fold (lcs_cell (A ! i) B prev) [1..<Suc j] (replicate (Suc n) 0)"
  from Suc have IH: "length cur = Suc n" "\<forall>k\<le>j. cur ! k = lcs_rec A B (Suc i) k"
    by (simp_all add: cur_def)
  have step: "fold (lcs_cell (A ! i) B prev) [1..<Suc (Suc j)] (replicate (Suc n) 0)
      = lcs_cell (A ! i) B prev (Suc j) cur"
    unfolding cur_def by (rule fold_upt_Suc) simp
  show ?case
    unfolding step using lcs_cell_step [OF prev(1) IH(1) Suc.prems prev(2) IH(2)] .
qed

lemma lcs_row_inv:
  assumes "length prev = Suc (length B)" "\<forall>k\<le>length B. prev ! k = lcs_rec A B i k"
  shows "length (lcs_row A B (Suc i) prev) = Suc (length B) \<and>
         (\<forall>k\<le>length B. lcs_row A B (Suc i) prev ! k = lcs_rec A B (Suc i) k)"
  using lcs_cells_inv [OF assms le_refl] by (simp add: lcs_row_def Let_def)

lemma lcs_rows_inv:
  "length (fold (lcs_row A B) [1..<Suc i] (replicate (Suc (length B)) 0)) = Suc (length B) \<and>
   (\<forall>k\<le>length B. fold (lcs_row A B) [1..<Suc i] (replicate (Suc (length B)) 0) ! k = lcs_rec A B i k)"
proof (induction i)
  case 0
  then show ?case by (simp add: nth_Cons')
next
  case (Suc i)
  define prev where "prev = fold (lcs_row A B) [1..<Suc i] (replicate (Suc (length B)) 0)"
  from Suc have IH: "length prev = Suc (length B)" "\<forall>k\<le>length B. prev ! k = lcs_rec A B i k"
    by (simp_all add: prev_def)
  have step: "fold (lcs_row A B) [1..<Suc (Suc i)] (replicate (Suc (length B)) 0)
      = lcs_row A B (Suc i) prev"
    unfolding prev_def by (rule fold_upt_Suc) simp
  show ?case
    unfolding step using lcs_row_inv [OF IH] .
qed

lemma lcs_length_rec: "lcs_length A B = lcs_rec A B (length A) (length B)"
proof (cases "length A = 0 \<or> length B = 0")
  case True
  then show ?thesis by (auto simp: lcs_length_def)
next
  case False
  then show ?thesis
    using lcs_rows_inv [of A B "length A"] by (simp add: lcs_length_def)
qed

subsection \<open>The full-table program computes the recurrence\<close>


lemma lcs_table_cell_shape:
  assumes "table_shape m n dp" "Suc i \<le> m" "Suc j \<le> n"
  shows "table_shape m n (lcs_table_cell A B (Suc i) (Suc j) dp)"
  using assms by (auto simp: table_shape_def lcs_table_cell_def nth_list_update)

lemma lcs_table_cell_filled:
  assumes "table_shape m (length B) dp" "Suc i \<le> m" "Suc j \<le> length B"
    and "table_filled A B (Suc i) j dp"
  shows "table_filled A B (Suc i) (Suc j) (lcs_table_cell A B (Suc i) (Suc j) dp)"
proof -
  have len: "length dp = Suc m" "length (dp ! Suc i) = Suc (length B)"
    using assms(1,2) by (auto simp: table_shape_def)
  have prev: "dp ! i ! j = lcs_rec A B i j" "dp ! i ! Suc j = lcs_rec A B i (Suc j)"
    and cur: "dp ! Suc i ! j = lcs_rec A B (Suc i) j"
    using assms(3,4) by (auto simp: table_filled_def)
  have new: "lcs_table_cell A B (Suc i) (Suc j) dp ! Suc i ! Suc j = lcs_rec A B (Suc i) (Suc j)"
    using len assms(2,3) prev cur by (simp add: lcs_table_cell_def)
  have old_row: "\<forall>k\<le>j. lcs_table_cell A B (Suc i) (Suc j) dp ! Suc i ! k = dp ! Suc i ! k"
    using len assms(2) by (simp add: lcs_table_cell_def)
  have old_rows: "\<forall>r<Suc i. lcs_table_cell A B (Suc i) (Suc j) dp ! r = dp ! r"
    by (simp add: lcs_table_cell_def)
  show ?thesis
    using assms(4) new old_row old_rows by (auto simp: table_filled_def le_Suc_eq)
qed

lemma lcs_table_cells_inv:
  assumes "table_shape m (length B) dp" "Suc i \<le> m" "table_filled A B (Suc i) 0 dp" "j \<le> length B"
  shows "table_shape m (length B) (fold (lcs_table_cell A B (Suc i)) [1..<Suc j] dp) \<and>
         table_filled A B (Suc i) j (fold (lcs_table_cell A B (Suc i)) [1..<Suc j] dp)"
  using assms(4)
proof (induction j)
  case 0
  then show ?case using assms by simp
next
  case (Suc j)
  define dp' where "dp' = fold (lcs_table_cell A B (Suc i)) [1..<Suc j] dp"
  from Suc have IH: "table_shape m (length B) dp'" "table_filled A B (Suc i) j dp'"
    by (simp_all add: dp'_def)
  have step: "fold (lcs_table_cell A B (Suc i)) [1..<Suc (Suc j)] dp
      = lcs_table_cell A B (Suc i) (Suc j) dp'"
    unfolding dp'_def by (rule fold_upt_Suc) simp
  show ?case
    unfolding step
    using lcs_table_cell_shape [OF IH(1) assms(2) Suc.prems]
      lcs_table_cell_filled [OF IH(1) assms(2) Suc.prems IH(2)] by simp
qed

lemma table_filled_next_row:
  assumes "table_shape m (length B) dp" "Suc i \<le> m" "table_filled A B i (length B) dp"
  shows "table_filled A B (Suc i) 0 dp"
  using assms by (auto simp: table_filled_def table_shape_def less_Suc_eq)

lemma lcs_table_row_inv:
  assumes "table_shape m (length B) dp" "Suc i \<le> m" "table_filled A B i (length B) dp"
  shows "table_shape m (length B) (lcs_table_row A B (Suc i) dp) \<and>
         table_filled A B (Suc i) (length B) (lcs_table_row A B (Suc i) dp)"
  using lcs_table_cells_inv [OF assms(1,2) table_filled_next_row [OF assms] le_refl]
  by (simp add: lcs_table_row_def)

lemma lcs_table_rows_inv:
  assumes "i \<le> length A"
  shows "table_shape (length A) (length B)
           (fold (lcs_table_row A B) [1..<Suc i] (replicate (Suc (length A)) (replicate (Suc (length B)) 0))) \<and>
         table_filled A B i (length B)
           (fold (lcs_table_row A B) [1..<Suc i] (replicate (Suc (length A)) (replicate (Suc (length B)) 0)))"
  using assms
proof (induction i)
  case 0
  then show ?case by (simp add: table_shape_def table_filled_def nth_Cons')
next
  case (Suc i)
  define dp where "dp = fold (lcs_table_row A B) [1..<Suc i] (replicate (Suc (length A)) (replicate (Suc (length B)) 0))"
  from Suc have IH: "table_shape (length A) (length B) dp" "table_filled A B i (length B) dp"
    by (simp_all add: dp_def)
  have step: "fold (lcs_table_row A B) [1..<Suc (Suc i)] (replicate (Suc (length A)) (replicate (Suc (length B)) 0))
      = lcs_table_row A B (Suc i) dp"
    unfolding dp_def by (rule fold_upt_Suc) simp
  show ?case
    unfolding step using lcs_table_row_inv [OF IH(1) Suc.prems IH(2)] .
qed

lemma SimilarityCalculator_lcs_rec:
  "SimilarityCalculator_lcs A B = lcs_rec A B (length A) (length B)"
  using lcs_table_rows_inv [of "length A" A B]
  by (simp add: SimilarityCalculator_lcs_def table_filled_def Let_def)

subsection \<open>Bounds and symmetry of the LCS length\<close>

lemma lcs_length_le_min: "lcs_length A B \<le> min (length A) (length B)"
  by (simp add: lcs_length_rec lcs_rec_le_left lcs_rec_le_right)

lemma lcs_length_sym: "lcs_length A B = lcs_length B A"
  by (simp add: lcs_length_rec lcs_rec_sym [of A B])

lemma similarity_lcs_range: "0 \<le> similarity_lcs A B \<and> similarity_lcs A B \<le> 1"
proof -
  have "lcs_length A B \<le> max (length A) (length B)"
    using lcs_length_le_min [of A B] by arith
  then have "(of_nat (lcs_length A B) :: rat) \<le> of_nat (max (length A) (length B))"
    by (simp only: of_nat_le_iff)
  moreover have "A \<noteq> [] \<Longrightarrow> 0 < max (length A) (length B)"
    by (simp add: less_max_iff_disj)
  ultimately show ?thesis
    by (simp add: similarity_lcs_def Let_def divide_le_eq_1)
qed

section \<open>Properties of strings and patterns\<close>

subsection \<open>Prefix matching by derivatives\<close>

lemma re_match_nullable: "nullable r \<Longrightarrow> re_match r s"
  by (cases s) simp_all

lemma re_match_RFail [simp]: "\<not> re_match RFail s"
  by (induction s) simp_all

lemma re_match_REmpty [simp]: "re_match REmpty s"
  by (simp add: re_match_nullable)

lemma re_match_RAlt [simp]: "re_match (RAlt r1 r2) s \<longleftrightarrow> re_match r1 s \<or> re_match r2 s"
  by (induction s arbitrary: r1 r2) auto

lemma re_match_RSeq_RFail [simp]: "\<not> re_match (RSeq RFail r) s"
  by (induction s) simp_all

lemma re_match_RSeq_REmpty [simp]: "re_match (RSeq REmpty r) s \<longleftrightarrow> re_match r s"
  by (cases s) simp_all

lemma in_class_single [simp]: "in_class [(c, c)] x \<longleftrightarrow> x = c"
  by (auto simp: in_class_def)

lemma re_match_RSeq_char:
  "re_match (RSeq (RClass [(c, c)]) r) s \<longleftrightarrow> (\<exists>t. s = c # t \<and> re_match r t)"
  by (cases s) auto

lemma re_match_RSeq_left: "re_match (RSeq r1 r2) s \<Longrightarrow> re_match r1 s"
  by (induction s arbitrary: r1) (auto split: if_splits)

lemma re_match_RSeq_nullable: "nullable r2 \<Longrightarrow> re_match (RSeq r1 r2) s \<longleftrightarrow> re_match r1 s"
  by (induction s arbitrary: r1) (auto simp: re_match_nullable)

lemma re_match_RLit: "re_match (RLit p) s \<longleftrightarrow> prefix p s"
proof (induction p arbitrary: s)
  case Nil
  show ?case by simp
next
  case (Cons c p)
  show ?case
    by (cases s) (auto simp: re_match_RSeq_char Cons.IH)
qed

lemma obfuscator_pattern_iff:
  "re_match OBFUSCATOR_NAME_PATTERN s \<longleftrightarrow>
     prefix ''a0_0x'' s \<or> prefix ''_0x'' s \<or> prefix ''0x'' s"
proof -
  have "re_match (RSeq (RLit ''_0x'') r) s \<Longrightarrow> prefix ''_0x'' s" for r
    using re_match_RSeq_left [of "RLit ''_0x''" r s] by (simp only: re_match_RLit)
  then show ?thesis
    unfolding OBFUSCATOR_NAME_PATTERN_def
    by (auto simp add: re_match_RSeq_nullable re_match_RLit simp del: RLit.simps)
qed

subsection \<open>Lower case and white space\<close>

lemma of_char_lt_256: "(of_char c :: nat) < 256"
proof -
  have "(of_char c :: nat) mod 256 = of_char c" by simp
  then show ?thesis
    by (metis mod_less_divisor zero_less_numeral)
qed

lemma of_char_lower_char:
  "(of_char (lower_char c) :: nat) =
     (if (65 \<le> (of_char c :: nat) \<and> (of_char c :: nat) \<le> 90)
         \<or> (192 \<le> (of_char c :: nat) \<and> (of_char c :: nat) \<le> 222 \<and> (of_char c :: nat) \<noteq> 215)
      then of_char c + 32 else of_char c)"
  by (auto simp: lower_char_def Let_def)

lemma py_isspace_lower_char [simp]: "py_isspace (lower_char c) = py_isspace c"
  by (auto simp: py_isspace_def of_char_lower_char)

lemma lower_char_idem [simp]: "lower_char (lower_char c) = lower_char c"
proof -
  have "(of_char (lower_char (lower_char c)) :: nat) = of_char (lower_char c)"
    by (subst of_char_lower_char) (auto simp: of_char_lower_char)
  then show ?thesis by (simp only: of_char_eq_iff)
qed

lemma in_name_chars:
  "in_class name_chars c \<longleftrightarrow>
     (48 \<le> (of_char c :: nat) \<and> (of_char c :: nat) \<le> 57) \<or> (97 \<le> (of_char c :: nat) \<and> (of_char c :: nat) \<le> 122)
     \<or> (65 \<le> (of_char c :: nat) \<and> (of_char c :: nat) \<le> 90) \<or> (of_char c :: nat) = 95"
  by (auto simp: in_class_def name_chars_def)

lemma in_name_chars_lower [simp]: "in_class name_chars (lower_char c) = in_class name_chars c"
  using of_char_lt_256 [of c] by (auto simp: in_name_chars of_char_lower_char)

lemma lower_char_underscore [simp]: "lower_char (CHR ''_'') = CHR ''_''"
  by (simp add: lower_char_def)




lemma py_strip_keeps_prefix:
  assumes "prefix p s" "p \<noteq> []" "\<forall>c\<in>set p. \<not> py_isspace c"
  shows "prefix p (py_strip s)"
proof -
  from assms(1) obtain t where s: "s = p @ t" by (auto simp: prefix_def)
  from assms(2,3) have hd_p: "\<not> py_isspace (hd p)" and last_p: "\<not> py_isspace (last p)"
    by simp_all
  have at_front: "dropWhile py_isspace (p @ t) = p @ t"
    using assms(2) hd_p by (cases p) simp_all
  have at_back: "dropWhile py_isspace (rev t @ rev p) = dropWhile py_isspace (rev t) @ rev p"
  proof -
    have "dropWhile py_isspace (rev p) = rev p"
      using assms(2) last_p by (cases "rev p") (auto simp: last_rev [symmetric] simp del: last_rev)
    then show ?thesis
      by (simp add: dropWhile_append)
  qed
  show ?thesis
    by (simp add: py_strip_def s at_front at_back)
qed

section \<open>Properties of the canonicalizer\<close>

lemma canonicalize_entry_dict:
  "canonicalize_entry R (PDict kvs) = Inr (canonicalize_func (entry_func R kvs))"
  by (simp add: canonicalize_entry_def)

lemma obfuscator_name_nonempty: "re_match OBFUSCATOR_NAME_PATTERN s \<Longrightarrow> s \<noteq> []"
  by (auto simp: obfuscator_pattern_iff)

lemma obfuscator_name_strip:
  assumes "re_match OBFUSCATOR_NAME_PATTERN s"
  shows "re_match OBFUSCATOR_NAME_PATTERN (py_strip s)"
proof -
  have "prefix p s \<Longrightarrow> p \<in> {''a0_0x'', ''_0x'', ''0x''} \<Longrightarrow> prefix p (py_strip s)" for p
    by (rule py_strip_keeps_prefix) (auto simp: py_isspace_def)
  then show ?thesis
    using assms unfolding obfuscator_pattern_iff by blast
qed


lemma canonicalize_func_wrapper:
  "re_match OBFUSCATOR_NAME_PATTERN s \<Longrightarrow> canonicalize_func s = ''OBFUSCATOR_WRAPPER''"
  by (simp add: canonicalize_func_def obfuscator_name_strip)

lemma entry_func_str:
  "dict_get kvs ''function'' = PStr s \<Longrightarrow> s \<noteq> [] \<Longrightarrow> entry_func R kvs = s"
  by (simp add: entry_func_def py_or_def)

lemma canonicalize_trace_from_wrappers:
  assumes "\<forall>e\<in>set raw_trace. \<exists>kvs s. e = PDict kvs \<and> dict_get kvs ''function'' = PStr s
             \<and> re_match OBFUSCATOR_NAME_PATTERN s"
  shows "canonicalize_trace_from R include_line tokens raw_trace = Inr tokens"
  using assms
proof (induction raw_trace)
  case Nil
  show ?case by simp
next
  case (Cons e es)
  then obtain kvs s where e: "e = PDict kvs" "dict_get kvs ''function'' = PStr s"
      "re_match OBFUSCATOR_NAME_PATTERN s"
    by auto
  have tok: "canonicalize_entry R e = Inr ''OBFUSCATOR_WRAPPER''"
    using e by (simp add: canonicalize_entry_dict entry_func_str obfuscator_name_nonempty
        canonicalize_func_wrapper)
  have line: "token_with_line R e ''OBFUSCATOR_WRAPPER'' = Inr ''OBFUSCATOR_WRAPPER''"
    using e(1) by (simp add: token_with_line_def Let_def)
  have rest: "canonicalize_trace_from R include_line tokens es = Inr tokens"
    using Cons by simp
  show ?case
    using rest by (cases include_line) (simp_all add: tok line)
qed

lemma canonicalize_trace_from_dicts:
  assumes "list_all is_dict raw_trace"
  shows "\<exists>ts. canonicalize_trace_from R include_line tokens raw_trace = Inr ts"
  using assms
proof (induction raw_trace arbitrary: tokens)
  case Nil
  show ?case by simp
next
  case (Cons e es)
  then obtain kvs where e: "e = PDict kvs"
    by (auto simp: is_dict_def split: pyval.splits)
  define tok where "tok = canonicalize_func (entry_func R kvs)"
  have "\<exists>t. (if include_line then token_with_line R (PDict kvs) tok else Inr tok) = Inr t"
    by (simp add: token_with_line_def Let_def)
  then obtain t where t: "(if include_line then token_with_line R (PDict kvs) tok else Inr tok) = Inr t" ..
  have step: "canonicalize_trace_from R include_line tokens (e # es) =
      (if t = ''OBFUSCATOR_WRAPPER'' then canonicalize_trace_from R include_line tokens es
       else canonicalize_trace_from R include_line (tokens @ [t]) es)"
    unfolding e canonicalize_trace_from.simps canonicalize_entry_dict tok_def [symmetric]
    by (simp only: sum.case t)
  from Cons have "\<exists>ts. canonicalize_trace_from R include_line tks es = Inr ts" for tks
    by simp
  then show ?case
    unfolding step by simp
qed

lemma canonicalize_trace_dicts:
  "list_all is_dict raw_trace \<Longrightarrow> \<exists>ts. canonicalize_trace R raw_trace include_line = Inr ts"
  unfolding canonicalize_trace_def by (rule canonicalize_trace_from_dicts)

lemma re_sub_outside_name_chars:
  "list_all (in_class name_chars) (re_sub_outside name_chars (CHR ''_'') s)"
proof -
  have "in_class name_chars (CHR ''_'')"
    by (simp add: in_name_chars)
  then show ?thesis
    by (induction s) (simp_all add: re_sub_outside_def)
qed

lemma if_chain8:
  assumes "Q a0" "Q a1" "Q a2" "Q a3" "Q a4" "Q a5" "Q a6" "Q z"
  shows "Q (if c0 then a0 else if c1 then a1 else if c2 then a2 else if c3 then a3
            else if c4 then a4 else if c5 then a5 else if c6 then a6 else z)"
  using assms by simp

lemma canonicalize_func_cases:
  assumes "Q ''OBFUSCATOR_WRAPPER''" "Q ''HANDLER''" "Q ''GLOBAL''" "Q ''PARSE_INT''"
    "Q ''TO_STRING''" "Q ''CONSOLE_LOG''" "Q ''ANON_FN''"
    and "Q (''FN:'' @ (if re_sub_outside name_chars (CHR ''_'') (py_strip func) = [] then ''FN_UNKNOWN''
                       else re_sub_outside name_chars (CHR ''_'') (py_strip func)))"
  shows "Q (canonicalize_func func)"
  unfolding canonicalize_func_def Let_def
  by (rule if_chain8) (fact assms)+



lemma entry_func_py_str:
  "entry_func str_other kvs =
     py_str str_other (py_or (py_or (dict_get kvs ''function'') (dict_get kvs ''event'')) (PStr []))"
  by (simp add: entry_func_def Let_def split: pyval.splits)


section \<open>Properties of the trace parser\<close>

lemma parse_lines_spec:
  assumes "\<forall>line\<in>set lines. \<forall>err. loads (py_strip line) = Inl err \<longrightarrow> err = JSONDecodeError"
  shows "parse_lines loads traces lines = Inr (traces @ List.map_filter (spec_trace_line loads) lines)"
  using assms
proof (induction lines arbitrary: traces)
  case Nil
  show ?case by (simp add: map_filter_simps)
next
  case (Cons line rest)
  then have rest: "parse_lines loads ts rest = Inr (ts @ List.map_filter (spec_trace_line loads) rest)" for ts
    by simp
  from Cons.prems have line: "loads (py_strip line) = Inl err \<Longrightarrow> err = JSONDecodeError" for err
    by simp
  have head: "parse_lines loads traces (line # rest) =
      parse_lines loads (case spec_trace_line loads line of None \<Rightarrow> traces | Some xs \<Rightarrow> traces @ [xs]) rest"
    using line by (auto simp: spec_trace_line_def Let_def split: sum.splits pyval.splits)
  show ?case
    unfolding head rest by (simp add: map_filter_simps split: option.splits)
qed

lemma parse_lines_raises:
  assumes "py_strip line \<noteq> []" "loads (py_strip line) = Inl err" "err \<noteq> JSONDecodeError"
  shows "parse_lines loads traces (line # rest) = Inl err"
  using assms by (simp add: Let_def)

lemma parse_lines_dicts:
  assumes "parse_lines loads traces lines = Inr ts" "list_all (list_all is_dict) traces"
  shows "list_all (list_all is_dict) ts"
  using assms
proof (induction lines arbitrary: traces)
  case Nil
  then show ?case by simp
next
  case (Cons line rest)
  from Cons.prems show ?case
    by (auto simp: Let_def split: if_splits sum.splits pyval.splits intro: Cons.IH)
qed

lemma fold_extend: "fold (\<lambda>t merged. merged @ t) trace_lists acc = acc @ concat trace_lists"
  by (induction trace_lists arbitrary: acc) simp_all

lemma merge_traces_concat: "merge_traces trace_lists = concat trace_lists"
  by (simp add: merge_traces_def fold_extend)

lemma collect_traces_dicts: "list_all is_dict (collect_traces loads stderr)"
proof (cases "parse_json_lines_from_stderr loads stderr")
  case (Inl err)
  then show ?thesis by (simp add: collect_traces_def)
next
  case (Inr ts)
  then have "list_all (list_all is_dict) ts"
    unfolding parse_json_lines_from_stderr_def by (rule parse_lines_dicts) simp
  then show ?thesis
    by (simp add: collect_traces_def Inr merge_traces_concat list_all_iff)
qed

lemma parser_spec:
  assumes "\<forall>line\<in>set (splitlines text). \<forall>err. loads (py_strip line) = Inl err \<longrightarrow> err = JSONDecodeError"
  shows "parse_json_lines_from_stderr loads text = Inr (List.map_filter (spec_trace_line loads) (splitlines text))"
    and "collect_traces loads text = spec_parse_trace loads text"
  using parse_lines_spec [OF assms, of "[]"]
  by (simp_all add: parse_json_lines_from_stderr_def collect_traces_def merge_traces_concat
      spec_parse_trace_def)

lemma char_of_cr_lf: "char_of (13 :: nat) = CHR 0x0D" "char_of (10 :: nat) = CHR 0x0A"
  by (simp_all add: char_of_eq_iff)

lemma splitlines_from_line:
  assumes "\<forall>c\<in>set l. \<not> is_linebreak c"
  shows "splitlines_from cur (l @ CHR 0x0A # rest) = (cur @ l) # splitlines_from [] rest"
  using assms
proof (induction l arbitrary: cur)
  case Nil
  show ?case by (cases rest) (simp_all add: is_linebreak_def char_of_cr_lf)
next
  case (Cons c l)
  then have c: "\<not> is_linebreak c" and "c \<noteq> char_of (13 :: nat)"
    by (auto simp: is_linebreak_def char_of_cr_lf)
  obtain d ds where tail: "l @ CHR 0x0A # rest = d # ds"
    by (cases "l @ CHR 0x0A # rest") simp_all
  have "splitlines_from cur (c # l @ CHR 0x0A # rest) = splitlines_from (cur @ [c]) (l @ CHR 0x0A # rest)"
    unfolding tail using c \<open>c \<noteq> char_of (13 :: nat)\<close> by simp
  then show ?case
    using Cons by simp
qed

lemma py_strip_id:
  assumes "s \<noteq> []" "\<not> py_isspace (hd s)" "\<not> py_isspace (last s)"
  shows "py_strip s = s"
proof -
  have "dropWhile py_isspace s = s"
    using assms(1,2) by (cases s) simp_all
  moreover have "dropWhile py_isspace (rev s) = rev s"
    using assms(1,3) by (cases "rev s") (auto simp: last_rev [symmetric] simp del: last_rev)
  ultimately show ?thesis
    by (simp add: py_strip_def)
qed

text \<open>
  A first line without white space or line boundary on which the decoder raises an
  exception that the loop does not catch: the parser raises it, the caller returns the
  empty trace, and the parser of the specification goes on with the rest of the text.
\<close>

lemma first_line_raises:
  assumes chars: "\<forall>c\<in>set l. \<not> is_linebreak c \<and> \<not> py_isspace c" and "l \<noteq> []"
    and loads: "loads l = Inl err" and err: "err \<noteq> JSONDecodeError"
  shows "parse_json_lines_from_stderr loads (l @ CHR 0x0A # rest) = Inl err"
    and "collect_traces loads (l @ CHR 0x0A # rest) = []"
    and "spec_parse_trace loads (l @ CHR 0x0A # rest) = spec_parse_trace loads rest"
proof -
  have lines: "splitlines (l @ CHR 0x0A # rest) = l # splitlines rest"
    unfolding splitlines_def using splitlines_from_line [of l "[]" rest] chars by simp
  have strip: "py_strip l = l"
    using \<open>l \<noteq> []\<close> chars by (intro py_strip_id) simp_all
  show raises: "parse_json_lines_from_stderr loads (l @ CHR 0x0A # rest) = Inl err"
    unfolding parse_json_lines_from_stderr_def lines
    using \<open>l \<noteq> []\<close> loads err by (intro parse_lines_raises) (simp_all add: strip)
  then show "collect_traces loads (l @ CHR 0x0A # rest) = []"
    by (simp add: collect_traces_def)
  have "spec_trace_line loads l = None"
    by (simp add: spec_trace_line_def strip loads)
  then show "spec_parse_trace loads (l @ CHR 0x0A # rest) = spec_parse_trace loads rest"
    unfolding spec_parse_trace_def lines by (simp add: map_filter_simps)
qed

text \<open>The two lines of the examples on which \<open>example_loads\<close> raises.\<close>

lemma big_integer_line_chars:
  "\<forall>c\<in>set big_integer_line. \<not> is_linebreak c \<and> \<not> py_isspace c" "big_integer_line \<noteq> []"
  "length big_integer_line = 4303" "last big_integer_line = CHR '']''"
  by (auto simp: big_integer_line_def is_linebreak_def py_isspace_def)

lemma deep_line_chars:
  "\<forall>c\<in>set deep_line. \<not> is_linebreak c \<and> \<not> py_isspace c" "deep_line \<noteq> []"
  "length deep_line = 100000" "last deep_line = CHR ''[''"
  by (auto simp: deep_line_def is_linebreak_def py_isspace_def)

lemma length_distinct: "length s = m \<Longrightarrow> length t = n \<Longrightarrow> m \<noteq> n \<Longrightarrow> s \<noteq> t"
  by (rule notI) simp

lemma example_lines_distinct:
  \<open>big_integer_line \<noteq> ''[{"function": "main", "line": 1}]''\<close>
  \<open>big_integer_line \<noteq> ''[{"function": "_0xabc123"}]''\<close>
  \<open>deep_line \<noteq> ''[{"function": "main", "line": 1}]''\<close>
  \<open>deep_line \<noteq> ''[{"function": "_0xabc123"}]''\<close>
  "deep_line \<noteq> big_integer_line"
proof -
  have main_line: \<open>length ''[{"function": "main", "line": 1}]'' = 33\<close>
    and wrapper_line: \<open>length ''[{"function": "_0xabc123"}]'' = 27\<close>
    by simp_all
  show \<open>big_integer_line \<noteq> ''[{"function": "main", "line": 1}]''\<close>
    by (rule length_distinct [OF big_integer_line_chars(3) main_line]) simp
  show \<open>big_integer_line \<noteq> ''[{"function": "_0xabc123"}]''\<close>
    by (rule length_distinct [OF big_integer_line_chars(3) wrapper_line]) simp
  show \<open>deep_line \<noteq> ''[{"function": "main", "line": 1}]''\<close>
    by (rule length_distinct [OF deep_line_chars(3) main_line]) simp
  show \<open>deep_line \<noteq> ''[{"function": "_0xabc123"}]''\<close>
    by (rule length_distinct [OF deep_line_chars(3) wrapper_line]) simp
  show "deep_line \<noteq> big_integer_line"
    by (rule length_distinct [OF deep_line_chars(3) big_integer_line_chars(3)]) simp
qed

lemma example_loads_big_integer: "example_loads big_integer_line = Inl ValueError"
  unfolding example_loads_def by (simp only: example_lines_distinct if_False if_True refl)

lemma example_loads_deep: "example_loads deep_line = Inl RecursionError"
  unfolding example_loads_def by (simp only: example_lines_distinct if_False if_True refl)

lemma example_second_trace:
  \<open>spec_parse_trace example_loads ''[{"function": "main", "line": 1}]''
     = [PDict [(''function'', PStr ''main''), (''line'', PInt 1)]]\<close>
  by code_simp

section \<open>Properties of the comparison orchestrator\<close>

lemma variant_trace_dicts: "list_all is_dict (variant_trace loads run)"
  by (cases run) (simp_all add: variant_trace_def collect_traces_dicts)

lemma variant_trace_absent: "absent run \<Longrightarrow> variant_trace loads run = []"
  by (cases run) (simp_all add: variant_trace_def absent_def)

lemma compute_pair_tokens:
  assumes "canonicalize_trace R ta il = Inr toks_a" "canonicalize_trace R tb il = Inr toks_b"
  shows "compute_pair R round4 il ta tb =
           Inr \<lparr>pr_similarity = round4 (similarity_lcs toks_a toks_b), pr_len_a = length toks_a,
                pr_len_b = length toks_b, pr_lcs_length = lcs_length toks_a toks_b\<rparr>"
  using assms by (simp add: compute_pair_def)

lemma traces_of_get:
  "traces_get (traces_of loads pc) ''original'' = variant_trace loads (pc_original pc)"
  "traces_get (traces_of loads pc) ''obfuscated'' = variant_trace loads (pc_obfuscated pc)"
  "traces_get (traces_of loads pc) ''deobfuscated'' = variant_trace loads (pc_deobfuscated pc)"
  by (simp_all add: traces_of_def files_of_def traces_get_def)

lemma process_file_report:
  assumes "canonicalize_trace R (variant_trace loads (pc_original pc)) il = Inr t_ori"
    and "canonicalize_trace R (variant_trace loads (pc_obfuscated pc)) il = Inr t_obf"
    and "canonicalize_trace R (variant_trace loads (pc_deobfuscated pc)) il = Inr t_deo"
  shows "\<exists>r. process_file loads R round4 il pc = Inr r
           \<and> r ''original_vs_obfuscated'' = Some (RScore (round4 (similarity_lcs t_ori t_obf)))
           \<and> r ''obfuscated_vs_deobfuscated'' = Some (RScore (round4 (similarity_lcs t_obf t_deo)))
           \<and> r ''deobfuscated_vs_original'' = Some (RScore (round4 (similarity_lcs t_deo t_ori)))
           \<and> r ''file'' = Some (RFile (pc_stem pc))"
proof -
  have pairs:
    "compute_pair R round4 il (traces_get (traces_of loads pc) ''original'')
       (traces_get (traces_of loads pc) ''obfuscated'')
     = Inr \<lparr>pr_similarity = round4 (similarity_lcs t_ori t_obf), pr_len_a = length t_ori,
            pr_len_b = length t_obf, pr_lcs_length = lcs_length t_ori t_obf\<rparr>"
    "compute_pair R round4 il (traces_get (traces_of loads pc) ''obfuscated'')
       (traces_get (traces_of loads pc) ''deobfuscated'')
     = Inr \<lparr>pr_similarity = round4 (similarity_lcs t_obf t_deo), pr_len_a = length t_obf,
            pr_len_b = length t_deo, pr_lcs_length = lcs_length t_obf t_deo\<rparr>"
    "compute_pair R round4 il (traces_get (traces_of loads pc) ''deobfuscated'')
       (traces_get (traces_of loads pc) ''original'')
     = Inr \<lparr>pr_similarity = round4 (similarity_lcs t_deo t_ori), pr_len_a = length t_deo,
            pr_len_b = length t_ori, pr_lcs_length = lcs_length t_deo t_ori\<rparr>"
    unfolding traces_of_get by (rule compute_pair_tokens; fact assms)+
  show ?thesis
    unfolding process_file_def Let_def report_pairs_def traces_of_def [symmetric]
    by (simp add: pairs)
qed

lemma round4_similarity:
  assumes "round4 0 = 0" "round4 1 = 1"
  shows "round4 (similarity_lcs ta tb) = spec_pair_score round4 ta tb"
  using assms by (simp add: similarity_lcs_def spec_pair_score_def Let_def)

section \<open>Claims about the similarity engine\<close>

text \<open>
  Claim C1. For all token sequences \<open>A\<close> and \<open>B\<close>, \<open>similarity_lcs A B\<close> is 1 when both
  are empty, 0 when exactly one of them is empty, and otherwise the LCS length divided
  by the length of the longer sequence (\<open>max\<close>, not the average of the two lengths); the
  value lies between 0 and 1.
\<close>

theorem similarity_lcs_cases:
  "similarity_lcs A B =
     (if A = [] \<and> B = [] then 1
      else if A = [] \<or> B = [] then 0
      else of_nat (lcs_length A B) / of_nat (max (length A) (length B)))
   \<and> 0 \<le> similarity_lcs A B \<and> similarity_lcs A B \<le> 1"
  using similarity_lcs_range [of A B] by (simp add: similarity_lcs_def Let_def)

text \<open>
  At \<open>A = [a, b, c]\<close> and \<open>B = [c]\<close> the LCS has length 1 and the score is \<open>1 / 3\<close>
  (the average length would give \<open>1 / 2\<close>); the two empty cases give 1 and 0.
\<close>

theorem similarity_lcs_cases_witness:
  "similarity_lcs [''a'', ''b'', ''c''] [''c''] = 1 / 3
   \<and> similarity_lcs ([] :: string list) [] = 1
   \<and> similarity_lcs [] [''c''] = 0
   \<and> similarity_lcs [''c''] [] = 0"
proof -
  have "lcs_length [''a'', ''b'', ''c''] [''c''] = 1"
    by code_simp
  then show ?thesis
    using similarity_lcs_cases [of "[''a'', ''b'', ''c'']" "[''c'']"]
      similarity_lcs_cases [of "[] :: string list" "[]"]
      similarity_lcs_cases [of "[]" "[''c'']"]
      similarity_lcs_cases [of "[''c'']" "[]"]
    by simp
qed

text \<open>
  Claim C7. The similarity is symmetric: \<open>similarity_lcs A B = similarity_lcs B A\<close> for
  all token sequences \<open>A\<close> and \<open>B\<close>.
\<close>

theorem similarity_lcs_symmetric: "similarity_lcs A B = similarity_lcs B A"
  by (auto simp: similarity_lcs_def Let_def lcs_length_sym [of A B] max.commute)

theorem similarity_lcs_symmetric_witness:
  "similarity_lcs [''a'', ''b'', ''c''] [''b'', ''c'', ''d'', ''e''] = 1 / 2
   \<and> similarity_lcs [''b'', ''c'', ''d'', ''e''] [''a'', ''b'', ''c''] = 1 / 2"
proof -
  have "similarity_lcs [''a'', ''b'', ''c''] [''b'', ''c'', ''d'', ''e''] = 1 / 2"
    by code_simp
  then show ?thesis
    using similarity_lcs_symmetric [of "[''a'', ''b'', ''c'']" "[''b'', ''c'', ''d'', ''e'']"]
    by simp
qed

text \<open>
  Claim C8. For all token sequences \<open>A\<close> and \<open>B\<close>, the LCS length is at most the length
  of the shorter sequence, and the similarity lies between 0 and 1.
\<close>

theorem lcs_length_bounded:
  "lcs_length A B \<le> min (length A) (length B)
   \<and> 0 \<le> similarity_lcs A B \<and> similarity_lcs A B \<le> 1"
  using lcs_length_le_min [of A B] similarity_lcs_range [of A B] by simp

theorem lcs_length_bounded_witness:
  "lcs_length [''a'', ''a'', ''a''] [''a'', ''a''] \<le> 2
   \<and> 0 \<le> similarity_lcs [''a'', ''a'', ''a''] [''a'', ''a'']
   \<and> similarity_lcs [''a'', ''a'', ''a''] [''a'', ''a''] \<le> 1"
  using lcs_length_bounded [of "[''a'', ''a'', ''a'']" "[''a'', ''a'']"] by simp

text \<open>
  Claim C9. The two-row program \<open>lcs_length\<close> returns, for every pair of sequences, the
  value that the full-table program \<^verbatim>\<open>_lcs\<close> of the first iteration returns.
\<close>

theorem lcs_length_refines_full_table: "lcs_length A B = SimilarityCalculator_lcs A B"
  by (simp add: lcs_length_rec SimilarityCalculator_lcs_rec)

theorem lcs_length_refines_full_table_witness:
  "lcs_length [1, 2, 3 :: int] [2, 3, 4] = 2
   \<and> SimilarityCalculator_lcs [1, 2, 3 :: int] [2, 3, 4] = 2"
proof -
  have "lcs_length [1, 2, 3 :: int] [2, 3, 4] = 2"
    by code_simp
  then show ?thesis
    using lcs_length_refines_full_table [of "[1, 2, 3 :: int]" "[2, 3, 4]"] by simp
qed

section \<open>Claims about the canonicalizer\<close>




text \<open>
  Claim C5. When the function name of every record of a trace is a string that matches
  the obfuscator pattern, \<open>canonicalize_trace\<close> returns the empty token sequence, with
  and without line numbers in the tokens; compared with the empty trace, such a trace
  has both token sequences empty and the similarity 1 (\<^verbatim>\<open>round(1.0, 4)\<close> is \<^verbatim>\<open>1.0\<close>, which
  is the hypothesis on \<open>round4\<close>).
\<close>

theorem wrapper_only_trace_dropped:
  assumes "\<forall>e\<in>set raw_trace. \<exists>kvs s. e = PDict kvs \<and> dict_get kvs ''function'' = PStr s
             \<and> re_match OBFUSCATOR_NAME_PATTERN s"
    and "round4 1 = 1"
  shows "canonicalize_trace str_other raw_trace include_line = Inr []
         \<and> (\<exists>r. compute_pair str_other round4 include_line raw_trace [] = Inr r
                \<and> pr_similarity r = 1 \<and> pr_len_a r = 0 \<and> pr_len_b r = 0)"
proof -
  have tokens: "canonicalize_trace str_other raw_trace include_line = Inr []"
    unfolding canonicalize_trace_def using assms(1) by (rule canonicalize_trace_from_wrappers)
  have empty: "canonicalize_trace str_other [] include_line = Inr []"
    by (simp add: canonicalize_trace_def)
  show ?thesis
    using assms(2) by (simp add: tokens empty compute_pair_def similarity_lcs_def)
qed

theorem wrapper_only_trace_dropped_witness:
  "canonicalize_trace (\<lambda>v. []) [PDict [(''function'', PStr ''_0xabc123'')]] False = Inr []
   \<and> (\<exists>r. compute_pair (\<lambda>v. []) (\<lambda>q. q) False [PDict [(''function'', PStr ''_0xabc123'')]] [] = Inr r
          \<and> pr_similarity r = 1 \<and> pr_len_a r = 0 \<and> pr_len_b r = 0)"
proof -
  have "re_match OBFUSCATOR_NAME_PATTERN ''_0xabc123''"
    by code_simp
  then have "\<forall>e\<in>set [PDict [(''function'', PStr ''_0xabc123'')]]. \<exists>kvs s. e = PDict kvs
      \<and> dict_get kvs ''function'' = PStr s \<and> re_match OBFUSCATOR_NAME_PATTERN s"
    by (simp add: dict_get_def)
  then show ?thesis
    by (rule wrapper_only_trace_dropped) simp
qed

text \<open>
  Claim C6. \<open>canonicalize_entry\<close> returns exactly one token for every record (every
  dict, whatever its keys and values), and raises nothing. The token is one of the seven
  fixed tokens, or \<^verbatim>\<open>FN:FN_UNKNOWN\<close> when the stripped name is empty, or \<^verbatim>\<open>FN:\<close> followed by
  the stripped name in which every character outside \<^verbatim>\<open>[0-9a-zA-Z_]\<close> has become \<^verbatim>\<open>_\<close>, so
  that the name part consists of characters of that class only.
\<close>

theorem canonicalize_entry_total:
  "\<exists>!t. canonicalize_entry str_other (PDict kvs) = Inr t \<and>
     (t \<in> set [''OBFUSCATOR_WRAPPER'', ''HANDLER'', ''GLOBAL'', ''PARSE_INT'', ''TO_STRING'',
                ''CONSOLE_LOG'', ''ANON_FN'']
      \<or> (py_strip (entry_func str_other kvs) = [] \<and> t = ''FN:FN_UNKNOWN'')
      \<or> (py_strip (entry_func str_other kvs) \<noteq> []
          \<and> t = ''FN:'' @ map (\<lambda>c. if in_class name_chars c then c else CHR ''_'')
                             (py_strip (entry_func str_other kvs))
          \<and> list_all (in_class name_chars) (drop 3 t)))"
proof -
  define name where "name = py_strip (entry_func str_other kvs)"
  define shape where "shape = (\<lambda>t.
      t \<in> set [''OBFUSCATOR_WRAPPER'', ''HANDLER'', ''GLOBAL'', ''PARSE_INT'', ''TO_STRING'',
                ''CONSOLE_LOG'', ''ANON_FN'']
      \<or> (name = [] \<and> t = ''FN:FN_UNKNOWN'')
      \<or> (name \<noteq> []
          \<and> t = ''FN:'' @ map (\<lambda>c. if in_class name_chars c then c else CHR ''_'') name
          \<and> list_all (in_class name_chars) (drop 3 t)))"
  have fallback: "shape (''FN:'' @ (if re_sub_outside name_chars (CHR ''_'') name = [] then ''FN_UNKNOWN''
                       else re_sub_outside name_chars (CHR ''_'') name))"
    using re_sub_outside_name_chars [of name]
    by (cases "name = []") (simp_all add: shape_def re_sub_outside_def)
  have kw: "shape ''OBFUSCATOR_WRAPPER''" "shape ''HANDLER''" "shape ''GLOBAL''"
      "shape ''PARSE_INT''" "shape ''TO_STRING''" "shape ''CONSOLE_LOG''" "shape ''ANON_FN''"
    by (simp_all add: shape_def)
  have "shape (canonicalize_func (entry_func str_other kvs))"
    by (rule canonicalize_func_cases) (fact kw fallback [unfolded name_def])+
  then show ?thesis
    unfolding canonicalize_entry_dict shape_def name_def by blast
qed

text \<open>
  A record whose function value is the float 1.5, which \<^verbatim>\<open>str\<close> renders as \<^verbatim>\<open>1.5\<close>: the
  token is \<^verbatim>\<open>FN:1_5\<close>.
\<close>

theorem canonicalize_entry_total_witness:
  "canonicalize_entry (\<lambda>v. ''1.5'') (PDict [(''function'', PFloat (3 / 2)), (''line'', PInt 4)]) = Inr ''FN:1_5''
   \<and> (\<exists>!t. canonicalize_entry (\<lambda>v. ''1.5'') (PDict [(''function'', PFloat (3 / 2)), (''line'', PInt 4)]) = Inr t)"
proof -
  have "canonicalize_entry (\<lambda>v. ''1.5'') (PDict [(''function'', PFloat (3 / 2)), (''line'', PInt 4)]) = Inr ''FN:1_5''"
    by code_simp
  then show ?thesis
    using canonicalize_entry_total [of "\<lambda>v. ''1.5''" "[(''function'', PFloat (3 / 2)), (''line'', PInt 4)]"]
    by simp
qed

text \<open>
  Claim C10. For a record whose \<^verbatim>\<open>function\<close> value is missing or falsy, the name that is
  classified is \<^verbatim>\<open>str\<close> of the \<^verbatim>\<open>event\<close> value when that is truthy (a string is left as it
  is, \<open>py_str\<close> of any other value is its rendering), and the empty string otherwise.
  So a record with a truthy \<^verbatim>\<open>event\<close> gets the token of the record whose \<^verbatim>\<open>function\<close> is
  that value, and only a record with neither gets \<^verbatim>\<open>FN:FN_UNKNOWN\<close> for lack of a name.
\<close>

theorem canonicalize_entry_event_fallback:
  assumes "\<not> py_truthy (dict_get kvs ''function'')"
  shows "canonicalize_entry str_other (PDict kvs) =
           Inr (canonicalize_func
                  (if py_truthy (dict_get kvs ''event'')
                   then py_str str_other (dict_get kvs ''event'') else []))
         \<and> (py_truthy (dict_get kvs ''event'') \<longrightarrow>
              canonicalize_entry str_other (PDict kvs)
                = canonicalize_entry str_other (PDict [(''function'', dict_get kvs ''event'')]))
         \<and> (\<not> py_truthy (dict_get kvs ''event'') \<longrightarrow>
              canonicalize_entry str_other (PDict kvs) = Inr ''FN:FN_UNKNOWN'')"
proof -
  have unknown: "canonicalize_func [] = ''FN:FN_UNKNOWN''"
    by code_simp
  have "entry_func str_other kvs =
      (if py_truthy (dict_get kvs ''event'') then py_str str_other (dict_get kvs ''event'') else [])"
    using assms by (simp add: entry_func_py_str py_or_def)
  moreover have "py_truthy v \<Longrightarrow> entry_func str_other [(''function'', v)] = py_str str_other v" for v
    by (simp add: entry_func_py_str py_or_def dict_get_def)
  ultimately show ?thesis
    by (simp add: canonicalize_entry_dict unknown)
qed

theorem canonicalize_entry_event_fallback_witness:
  "canonicalize_entry (\<lambda>v. []) (PDict [(''function'', PStr []), (''event'', PStr ''Data'')]) = Inr ''HANDLER''
   \<and> canonicalize_entry (\<lambda>v. []) (PDict [(''event'', PInt 7), (''line'', PInt 2)]) = Inr ''FN:7''
   \<and> canonicalize_entry (\<lambda>v. []) (PDict [(''function'', PNone), (''event'', PInt 0)]) = Inr ''FN:FN_UNKNOWN''"
proof -
  have a: "\<not> py_truthy (dict_get [(''function'', PStr []), (''event'', PStr ''Data'')] ''function'')"
    and b: "\<not> py_truthy (dict_get [(''event'', PInt 7), (''line'', PInt 2)] ''function'')"
    and c: "\<not> py_truthy (dict_get [(''function'', PNone), (''event'', PInt 0)] ''function'')"
    by (simp_all add: dict_get_def)
  have "canonicalize_func ''Data'' = ''HANDLER''" "canonicalize_func ''7'' = ''FN:7''"
      "str_int 7 = ''7''" "canonicalize_func [] = ''FN:FN_UNKNOWN''"
    by code_simp+
  then show ?thesis
    using canonicalize_entry_event_fallback [OF a, of "\<lambda>v. []"]
      canonicalize_entry_event_fallback [OF b, of "\<lambda>v. []"]
      canonicalize_entry_event_fallback [OF c, of "\<lambda>v. []"]
    by (simp add: dict_get_def)
qed

section \<open>Claims about the trace parser\<close>

text \<open>
  Claim C3: for every diagnostic text, the parsed trace is the concatenation, in the
  order of the lines, of the arrays of exactly those lines that decode to an array whose
  every element is a key-value record; every other line is skipped, never stops the
  lines after it from being read, and never makes the parser raise.

  The code does not have this property. Its loop catches \<^verbatim>\<open>json.JSONDecodeError\<close> only,
  and \<^verbatim>\<open>json.loads\<close> raises other exceptions. On a text of two lines, the array
  \<^verbatim>\<open>'[' + '1' * 4301 + ']'\<close> and then the trace array \<^verbatim>\<open>[{"function": "main", "line": 1}]\<close>,
  the decoder raises \<^verbatim>\<open>ValueError\<close> on the first line: \<open>parse_json_lines_from_stderr\<close>
  raises it and never reads the second line, and its caller, which catches every
  exception, returns the empty trace, whereas the parser of the claim skips the first
  line and returns the record of the second. The same happens with \<^verbatim>\<open>RecursionError\<close>
  when the first line is \<^verbatim>\<open>'[' * 100000\<close>. (When the decoder raises nothing but
  \<^verbatim>\<open>JSONDecodeError\<close> on the lines of a text, the code and the claim agree on it: this is
  \<open>parser_spec\<close>.)
\<close>

theorem parser_raises_on_undecodable_line:
  \<open>parse_json_lines_from_stderr example_loads
      (big_integer_line @ CHR 0x0A # ''[{"function": "main", "line": 1}]'') = Inl ValueError
   \<and> collect_traces example_loads
      (big_integer_line @ CHR 0x0A # ''[{"function": "main", "line": 1}]'') = []
   \<and> spec_parse_trace example_loads
      (big_integer_line @ CHR 0x0A # ''[{"function": "main", "line": 1}]'')
     = [PDict [(''function'', PStr ''main''), (''line'', PInt 1)]]
   \<and> parse_json_lines_from_stderr example_loads
      (deep_line @ CHR 0x0A # ''[{"function": "main", "line": 1}]'') = Inl RecursionError
   \<and> collect_traces example_loads
      (deep_line @ CHR 0x0A # ''[{"function": "main", "line": 1}]'') = []
   \<and> spec_parse_trace example_loads
      (deep_line @ CHR 0x0A # ''[{"function": "main", "line": 1}]'')
     = [PDict [(''function'', PStr ''main''), (''line'', PInt 1)]]\<close>
proof -
  have errs: "ValueError \<noteq> JSONDecodeError" "RecursionError \<noteq> JSONDecodeError"
    by simp_all
  note big_facts =
    first_line_raises [where loads = example_loads and l = big_integer_line and err = ValueError,
      OF big_integer_line_chars(1,2) example_loads_big_integer errs(1)]
  note deep_facts =
    first_line_raises [where loads = example_loads and l = deep_line and err = RecursionError,
      OF deep_line_chars(1,2) example_loads_deep errs(2)]
  show ?thesis
    by (simp only: big_facts deep_facts example_second_trace simp_thms)
qed

section \<open>Claims about the comparison orchestrator\<close>

text \<open>
  Claim C2, as stated: the report always holds the three pairwise keys, and a pair of an
  absent and a present variant scores 0, a pair of two absent variants scores 1. The
  first part holds. The second fails for a present variant whose token sequence is
  empty: here the original timed out, the obfuscated variant ran and left a trace of
  one record, a wrapper frame that the canonicalizer drops, and the pair scores 1.
\<close>

theorem absent_vs_present_scores_one:
  \<open>absent TimedOut
   \<and> \<not> absent (Ran ''[{"function": "_0xabc123"}]'')
   \<and> variant_trace example_loads (Ran ''[{"function": "_0xabc123"}]'')
       = [PDict [(''function'', PStr ''_0xabc123'')]]
   \<and> report_score
        (process_file example_loads str_unused example_round4 False
           \<lparr>pc_stem = ''p00002'', pc_original = TimedOut,
            pc_obfuscated = Ran ''[{"function": "_0xabc123"}]'', pc_deobfuscated = NoFile\<rparr>)
        ''original_vs_obfuscated'' = Some 1\<close>
  by code_simp

text \<open>
  Claim C2, amended. Whatever happens to each of the three variants, \<open>process_file\<close>
  returns a report that holds a score under each of the three keys
  \<^verbatim>\<open>original_vs_obfuscated\<close>, \<^verbatim>\<open>obfuscated_vs_deobfuscated\<close> and \<^verbatim>\<open>deobfuscated_vs_original\<close>.
  An absent variant contributes the empty token sequence. The score of a pair is 1 when
  both token sequences are empty (two absent variants, or an absent one and a present
  one with no token), 0 when exactly one is empty (an absent variant and one with a
  token), and the rounded quotient otherwise. The hypotheses say that \<^verbatim>\<open>round(x, 4)\<close>
  leaves \<^verbatim>\<open>0.0\<close> and \<^verbatim>\<open>1.0\<close> as they are.
\<close>

theorem process_file_fixed_triad:
  assumes "round4 0 = 0" and "round4 1 = 1"
  shows "\<exists>t_ori t_obf t_deo.
      canonicalize_trace str_other (variant_trace loads (pc_original pc)) include_line = Inr t_ori
    \<and> canonicalize_trace str_other (variant_trace loads (pc_obfuscated pc)) include_line = Inr t_obf
    \<and> canonicalize_trace str_other (variant_trace loads (pc_deobfuscated pc)) include_line = Inr t_deo
    \<and> (absent (pc_original pc) \<longrightarrow> t_ori = [])
    \<and> (absent (pc_obfuscated pc) \<longrightarrow> t_obf = [])
    \<and> (absent (pc_deobfuscated pc) \<longrightarrow> t_deo = [])
    \<and> report_score (process_file loads str_other round4 include_line pc) ''original_vs_obfuscated''
        = Some (spec_pair_score round4 t_ori t_obf)
    \<and> report_score (process_file loads str_other round4 include_line pc) ''obfuscated_vs_deobfuscated''
        = Some (spec_pair_score round4 t_obf t_deo)
    \<and> report_score (process_file loads str_other round4 include_line pc) ''deobfuscated_vs_original''
        = Some (spec_pair_score round4 t_deo t_ori)"
proof -
  obtain t_ori where ori:
    "canonicalize_trace str_other (variant_trace loads (pc_original pc)) include_line = Inr t_ori"
    using canonicalize_trace_dicts [OF variant_trace_dicts] by blast
  obtain t_obf where obf:
    "canonicalize_trace str_other (variant_trace loads (pc_obfuscated pc)) include_line = Inr t_obf"
    using canonicalize_trace_dicts [OF variant_trace_dicts] by blast
  obtain t_deo where deo:
    "canonicalize_trace str_other (variant_trace loads (pc_deobfuscated pc)) include_line = Inr t_deo"
    using canonicalize_trace_dicts [OF variant_trace_dicts] by blast
  have empty: "absent run \<Longrightarrow> canonicalize_trace str_other (variant_trace loads run) include_line = Inr t
      \<Longrightarrow> t = []" for run t
    by (simp add: variant_trace_absent canonicalize_trace_def)
  obtain r where r: "process_file loads str_other round4 include_line pc = Inr r"
    "r ''original_vs_obfuscated'' = Some (RScore (round4 (similarity_lcs t_ori t_obf)))"
    "r ''obfuscated_vs_deobfuscated'' = Some (RScore (round4 (similarity_lcs t_obf t_deo)))"
    "r ''deobfuscated_vs_original'' = Some (RScore (round4 (similarity_lcs t_deo t_ori)))"
    using process_file_report [OF ori obf deo, of round4] by blast
  have scores:
    "report_score (process_file loads str_other round4 include_line pc) ''original_vs_obfuscated''
        = Some (spec_pair_score round4 t_ori t_obf)"
    "report_score (process_file loads str_other round4 include_line pc) ''obfuscated_vs_deobfuscated''
        = Some (spec_pair_score round4 t_obf t_deo)"
    "report_score (process_file loads str_other round4 include_line pc) ''deobfuscated_vs_original''
        = Some (spec_pair_score round4 t_deo t_ori)"
    by (simp_all add: report_score_def r round4_similarity [OF assms])
  show ?thesis
    using ori obf deo empty [OF _ ori] empty [OF _ obf] empty [OF _ deo] scores by blast
qed

text \<open>
  The original ran and left one record of \<^verbatim>\<open>main\<close>, the obfuscated variant timed out and
  the deobfuscated one has no file: the scores are 0, 1 and 0.
\<close>

theorem process_file_fixed_triad_witness:
  \<open>report_score
      (process_file example_loads str_unused example_round4 False
         \<lparr>pc_stem = ''p00002'', pc_original = Ran ''[{"function": "main", "line": 1}]'',
          pc_obfuscated = TimedOut, pc_deobfuscated = NoFile\<rparr>)
      ''original_vs_obfuscated'' = Some 0
   \<and> report_score
      (process_file example_loads str_unused example_round4 False
         \<lparr>pc_stem = ''p00002'', pc_original = Ran ''[{"function": "main", "line": 1}]'',
          pc_obfuscated = TimedOut, pc_deobfuscated = NoFile\<rparr>)
      ''obfuscated_vs_deobfuscated'' = Some 1
   \<and> report_score
      (process_file example_loads str_unused example_round4 False
         \<lparr>pc_stem = ''p00002'', pc_original = Ran ''[{"function": "main", "line": 1}]'',
          pc_obfuscated = TimedOut, pc_deobfuscated = NoFile\<rparr>)
      ''deobfuscated_vs_original'' = Some 0\<close>
proof -
  define pc where \<open>pc = \<lparr>pc_stem = ''p00002'', pc_original = Ran ''[{"function": "main", "line": 1}]'',
          pc_obfuscated = TimedOut, pc_deobfuscated = NoFile\<rparr>\<close>
  have rounding: "example_round4 0 = 0" "example_round4 1 = 1"
    by code_simp+
  have runs: "absent (pc_obfuscated pc)" "absent (pc_deobfuscated pc)"
    by (simp_all add: pc_def absent_def)
  have \<open>canonicalize_trace str_unused
      (variant_trace example_loads (Ran ''[{"function": "main", "line": 1}]'')) False = Inr [''FN:main'']\<close>
    by code_simp
  then have ori: "canonicalize_trace str_unused (variant_trace example_loads (pc_original pc)) False
      = Inr [''FN:main'']"
    by (simp add: pc_def)
  show ?thesis
    unfolding pc_def [symmetric]
    using process_file_fixed_triad [OF rounding, of str_unused example_loads pc False] runs ori
    by (auto simp: spec_pair_score_def)
qed

end
